theory Spec2Isabelle
  imports Main "HOL-Library.Word"
begin

section \<open>Error values of the host environment\<close>

text \<open>
  The package \<open>stackerr\<close> decorates Go error values with a captured call stack. A Go value
  of the interface type \<open>error\<close> is either \<open>nil\<close> or a dynamic value. The dynamic values are
  the datatype \<open>errval\<close>:
  \<^item> \<open>ErrorString a s\<close>: the pointer \<open>*errors.errorString\<close> returned by \<open>errors.New\<close> (and by
    \<open>fmt.Errorf\<close> without a wrap directive), allocated at address \<open>a\<close>, with message \<open>s\<close>;
  \<^item> \<open>WrapError a s e\<close>: the pointer \<open>*fmt.wrapError\<close> returned by \<open>fmt.Errorf\<close> with a
    \<open>%w\<close> operand \<open>e\<close>, allocated at address \<open>a\<close>, with the formatted message \<open>s\<close>;
  \<^item> \<open>OtherError c i m n\<close>: a value of an error type defined elsewhere, with no \<open>Is\<close>, \<open>As\<close> or
    \<open>Format\<close> method: \<open>c\<close> tells whether its dynamic type is comparable (a slice type such
    as \<open>go/scanner.ErrorList\<close> is not), \<open>i\<close> stands for its contents, \<open>m\<close> is what its
    \<open>Error\<close> method returns and \<open>n\<close> what its \<open>Unwrap\<close> method returns (\<open>nil\<close> when it has none);
  \<^item> \<open>Stack d\<close>: a value of this package's struct type \<open>errorStack\<close>.
  The interface type \<open>error\<close> is \<open>errval option\<close>, with \<open>None\<close> for \<open>nil\<close>. A pointer is
  modelled by its address together with what it points to; values are immutable, so two
  pointers of one heap are equal exactly when the pairs are.

  The struct \<open>errorStack\<close> has the three fields of the source: \<open>Err error\<close>,
  \<open>trace []uintptr\<close> and \<open>earlier *errorStack\<close>. The struct is never mutated after it is
  built, so the pointer \<open>earlier\<close> is modelled by the value it points to.

  The unwrap chain is linear: an error has at most one \<open>Unwrap() error\<close> link, as in the
  \<open>errors\<close> package of the Go release the package's tests were recorded against.
\<close>

type_synonym uintptr = "64 word"
type_synonym addr = nat

datatype errval =
    ErrorString addr string
  | WrapError addr string errval
  | OtherError bool nat string "errval option"
  | Stack errorStack
and errorStack =
    ErrorStack (Err: "errval option") (trace: "uintptr list") (earlier: "errorStack option")

type_synonym error = "errval option"

text \<open>\<open>runtime.Frame\<close>, with the fields a line template may use.\<close>

record Frame =
  Function :: string
  File :: string
  Line :: int

definition Frame_zero :: Frame where
  "Frame_zero = \<lparr>Function = [], File = [], Line = 0\<rparr>"

text \<open>The operands of a formatting call (\<open>...interface{}\<close>).\<close>

datatype val = VString string | VInt int | VError error

text \<open>The result of executing a \<open>text/template\<close> template on a frame: the error that
  \<open>Execute\<close> returns, or the text it wrote to the buffer.\<close>

type_synonym template = "Frame \<Rightarrow> errval + string"

text \<open>
  What the package takes from the Go runtime and the standard library, as parameters:
  \<^item> \<open>symtab\<close>: the frames a program counter stands for, as \<open>runtime.CallersFrames\<close> finds
    them (none for a counter outside every function, several for inlined calls);
  \<^item> \<open>doPrintf\<close>: the printer of \<open>fmt\<close>, run by \<open>fmt.Errorf\<close> on a format and its operands:
    the text it builds and the operand of the \<open>%w\<close> directive, if there is one;
  \<^item> \<open>Quote\<close>: \<open>strconv.Quote\<close>, which the verb \<open>%q\<close> applies to a string;
  \<^item> the program counters of the package's own call sites: \<open>pc_Callers\<close> is the frame of
    \<open>runtime.Callers\<close> itself, \<open>pc_buildStackTrace\<close> the call of \<open>runtime.Callers\<close> in
    \<open>buildStackTrace\<close>, \<open>pc_Wrap\<close>, \<open>pc_New\<close> and \<open>pc_Errorf\<close> the calls of \<open>buildStackTrace\<close>,
    \<open>pc_Trace\<close> the call of \<open>Wrap\<close> in \<open>Trace\<close> and \<open>pc_Format\<close> the call of \<open>Trace\<close> in \<open>Format\<close>.
  A function of the package that may capture a stack takes the stack of its goroutine as
  a list \<open>stk\<close> of program counters, its caller's first.
\<close>

record runtime =
  symtab :: "uintptr \<Rightarrow> Frame list"
  doPrintf :: "string \<Rightarrow> val list \<Rightarrow> string \<times> errval option"
  Quote :: "string \<Rightarrow> string"
  pc_Callers :: uintptr
  pc_buildStackTrace :: uintptr
  pc_Wrap :: uintptr
  pc_New :: uintptr
  pc_Errorf :: uintptr
  pc_Trace :: uintptr
  pc_Format :: uintptr

subsection \<open>The package \<open>errors\<close>\<close>

definition errors_New :: "addr \<Rightarrow> string \<Rightarrow> error" where
  "errors_New a s = Some (ErrorString a s)"

text \<open>\<open>errors.Unwrap\<close>: the result of the \<open>Unwrap\<close> method, \<open>nil\<close> for a value without one.
  The method of \<open>errorStack\<close> is the source's \<open>Unwrap\<close>.\<close>

definition errorStack_Unwrap :: "errorStack \<Rightarrow> error" where
  "errorStack_Unwrap e = Err e"

fun errors_Unwrap :: "error \<Rightarrow> error" where
  "errors_Unwrap None = None"
| "errors_Unwrap (Some (ErrorString a s)) = None"
| "errors_Unwrap (Some (WrapError a s e)) = Some e"
| "errors_Unwrap (Some (OtherError c i m n)) = n"
| "errors_Unwrap (Some (Stack d)) = errorStack_Unwrap d"

definition depth :: "error \<Rightarrow> nat" where
  "depth err = (case err of None \<Rightarrow> 0 | Some e \<Rightarrow> Suc (size e))"

lemma size_Err: "Err d = Some x \<Longrightarrow> size x < size d"
  by (cases d) auto

lemma depth_Err: "depth (Err d) < Suc (size d)"
  by (cases d) (auto simp: depth_def split: option.splits)

lemma depth_Unwrap: "depth (errors_Unwrap (Some e)) < depth (Some e)"
  by (cases e) (auto simp: depth_def errorStack_Unwrap_def dest: size_Err split: option.splits)

text \<open>\<open>errors.As(err, &se)\<close> for a target of type \<open>*errorStack\<close>: the loop walks the unwrap
  chain and stops at the first value whose type is \<open>errorStack\<close>; \<open>Some\<close> of it is what the
  target is set to when \<open>As\<close> returns true, \<open>None\<close> is the result false.\<close>

function (sequential) errors_As :: "error \<Rightarrow> errorStack option" where
  "errors_As None = None"
| "errors_As (Some (Stack d)) = Some d"
| "errors_As (Some e) = errors_As (errors_Unwrap (Some e))"
  by pat_completeness auto
termination
  by (relation "measure depth") (simp_all add: depth_Unwrap del: errors_Unwrap.simps)

text \<open>\<open>reflectlite.TypeOf(target).Comparable()\<close>: pointers are comparable; the struct
  \<open>errorStack\<close> has a slice field and is not.\<close>

fun isComparable :: "errval \<Rightarrow> bool" where
  "isComparable (ErrorString a s) = True"
| "isComparable (WrapError a s e) = True"
| "isComparable (OtherError c i m n) = c"
| "isComparable (Stack d) = False"

text \<open>
  \<open>errors.Is\<close> and the method \<open>Is\<close> of \<open>errorStack\<close>, which call each other. \<open>errors.Is\<close>:
  with a \<open>nil\<close> target the result is \<open>err == target\<close>; otherwise every error of the chain is
  compared with the target (when the target's type is comparable) and asked through its
  \<open>Is\<close> method, if it has one; the end of the chain gives false. The method \<open>Is\<close> is the
  source's: a type assertion on the argument, then \<open>errors.Is\<close> on the two \<open>Err\<close> fields.
\<close>

function errors_Is :: "error \<Rightarrow> error \<Rightarrow> bool"
  and errorStack_Is :: "errorStack \<Rightarrow> error \<Rightarrow> bool" where
  "errors_Is err None = (err = None)"
| "errors_Is None (Some t) = False"
| "errors_Is (Some e) (Some t) =
     ((isComparable t \<and> e = t) \<or>
      (case e of Stack x \<Rightarrow> errorStack_Is x (Some t) | _ \<Rightarrow> False) \<or>
      errors_Is (errors_Unwrap (Some e)) (Some t))"
| "errorStack_Is e err =
     (case err of Some (Stack t) \<Rightarrow> errors_Is (Err e) (Err t) | _ \<Rightarrow> False)"
  by pat_completeness auto
termination
  apply (relation "measure (\<lambda>x. case x of Inl (e, t) \<Rightarrow> depth e + depth t
                                      | Inr (d, t) \<Rightarrow> Suc (size d) + depth t)")
     apply simp
    apply (simp add: depth_def)
   apply (simp only: in_measure sum.case prod.case)
   apply (rule add_less_mono1 [OF depth_Unwrap])
  apply (simp only: in_measure sum.case prod.case)
  subgoal for e err x2 x4
    using depth_Err [of e] depth_Err [of x4] by (simp add: depth_def)
  done

text \<open>The method \<open>Error\<close>, dispatched on the dynamic value. The method of \<open>errorStack\<close> is
  \<open>e.Err.Error()\<close>: on a \<open>nil\<close> field the call panics, which is the result \<open>None\<close>.\<close>

fun error_Error :: "errval \<Rightarrow> string option"
  and errorStack_Error :: "errorStack \<Rightarrow> string option" where
  "error_Error (ErrorString a s) = Some s"
| "error_Error (WrapError a s e) = Some s"
| "error_Error (OtherError c i m n) = Some m"
| "error_Error (Stack d) = errorStack_Error d"
| "errorStack_Error (ErrorStack err tr ea) =
     (case err of None \<Rightarrow> None | Some x \<Rightarrow> error_Error x)"

subsection \<open>\<open>fmt.Errorf\<close>\<close>

text \<open>\<open>fmt.Errorf\<close> after the printer has run: \<open>errors.New\<close> of the text when no operand was
  wrapped, a \<open>*wrapError\<close> of the text and the wrapped operand otherwise. The pointer
  returned is allocated at \<open>a\<close>.\<close>

definition fmt_Errorf :: "runtime \<Rightarrow> addr \<Rightarrow> string \<Rightarrow> val list \<Rightarrow> error" where
  "fmt_Errorf rt a format vals =
     (case doPrintf rt format vals of
        (s, None) \<Rightarrow> errors_New a s
      | (s, Some w) \<Rightarrow> Some (WrapError a s w))"

subsection \<open>The package \<open>runtime\<close>\<close>

text \<open>\<open>runtime.Callers(skip, pc)\<close> with \<open>len(pc) = n\<close>, called with the frames \<open>stk\<close> below it:
  frame 0 is \<open>Callers\<close> itself; the result is the filled prefix \<open>pc[:n']\<close>.\<close>

definition runtime_Callers :: "runtime \<Rightarrow> nat \<Rightarrow> nat \<Rightarrow> uintptr list \<Rightarrow> uintptr list" where
  "runtime_Callers rt skip n stk = take n (drop skip (pc_Callers rt # stk))"

text \<open>\<open>runtime.CallersFrames\<close> and \<open>Frames.Next\<close>. The iterator is the list of the frames
  it has not returned yet. \<open>Next\<close> returns the next frame and whether another one follows;
  on an exhausted iterator it returns the zero frame and false.\<close>

definition runtime_CallersFrames :: "runtime \<Rightarrow> uintptr list \<Rightarrow> Frame list" where
  "runtime_CallersFrames rt callers = concat (map (symtab rt) callers)"

definition Frames_Next :: "Frame list \<Rightarrow> Frame \<times> bool \<times> Frame list" where
  "Frames_Next ci = (case ci of [] \<Rightarrow> (Frame_zero, False, []) | f # fs \<Rightarrow> (f, fs \<noteq> [], fs))"

subsection \<open>\<open>strings.Join\<close> and decimal numerals\<close>

fun strings_Join :: "string list \<Rightarrow> string \<Rightarrow> string" where
  "strings_Join [] sep = []"
| "strings_Join [x] sep = x"
| "strings_Join (x # y # xs) sep = x @ sep @ strings_Join (y # xs) sep"

definition newline :: string where
  "newline = [CHR 0x0A]"

definition digit :: "nat \<Rightarrow> char" where
  "digit d = char_of (48 + d)"

function decimal :: "nat \<Rightarrow> string" where
  "decimal n = (if n < 10 then [digit n] else decimal (n div 10) @ [digit (n mod 10)])"
  by pat_completeness auto
termination
  by (relation "measure id") auto

definition itoa :: "int \<Rightarrow> string" where
  "itoa i = (if i < 0 then CHR ''-'' # decimal (nat (- i)) else decimal (nat i))"

section \<open>The package \<open>stackerr\<close>\<close>

text \<open>\<open>StackTrace\<close>: the frames of the earlier \<open>errorStack\<close> when the field is set, of the
  own \<open>trace\<close> otherwise; a new iterator at every call.\<close>

fun errorStack_StackTrace :: "runtime \<Rightarrow> errorStack \<Rightarrow> Frame list" where
  "errorStack_StackTrace rt (ErrorStack err tr (Some e)) = errorStack_StackTrace rt e"
| "errorStack_StackTrace rt (ErrorStack err tr None) = runtime_CallersFrames rt tr"

text \<open>\<open>buildStackTrace\<close>, called with the frames below it: a buffer of 20 counters,
  filled by \<open>runtime.Callers(3, pc)\<close> and cut to what was filled.\<close>

definition buildStackTrace :: "runtime \<Rightarrow> uintptr list \<Rightarrow> uintptr list" where
  "buildStackTrace rt stk = runtime_Callers rt 3 20 (pc_buildStackTrace rt # stk)"

definition Wrap :: "runtime \<Rightarrow> uintptr list \<Rightarrow> error \<Rightarrow> error" where
  "Wrap rt stk err =
     (if err = None then None
      else case errors_As err of
             Some se \<Rightarrow> err
           | None \<Rightarrow> Some (Stack (ErrorStack err (buildStackTrace rt (pc_Wrap rt # stk)) None)))"

definition New :: "runtime \<Rightarrow> uintptr list \<Rightarrow> addr \<Rightarrow> string \<Rightarrow> error" where
  "New rt stk a msg =
     Some (Stack (ErrorStack (errors_New a msg) (buildStackTrace rt (pc_New rt # stk)) None))"

definition Errorf :: "runtime \<Rightarrow> uintptr list \<Rightarrow> addr \<Rightarrow> string \<Rightarrow> val list \<Rightarrow> error" where
  "Errorf rt stk a format vals =
     (let err = fmt_Errorf rt a format vals in
      case errors_As err of
        Some st \<Rightarrow>
          (if earlier st \<noteq> None then Some (Stack (ErrorStack err [] (earlier st)))
           else Some (Stack (ErrorStack err [] (Some st))))
      | None \<Rightarrow> Some (Stack (ErrorStack err (buildStackTrace rt (pc_Errorf rt # stk)) None)))"

definition HasStack :: "error \<Rightarrow> bool" where
  "HasStack e = (errors_As e \<noteq> None)"

text \<open>\<open>StandardFormat\<close>: the template \<open>{{.Function}} ({{.File}}:{{.Line}})\<close>, which
  executes on every frame.\<close>

definition StandardFormat :: template where
  "StandardFormat frame =
     Inr (Function frame @ '' ('' @ File frame @ '':'' @ itoa (Line frame) @ '')'')"

text \<open>The loop of \<open>Trace\<close>: \<open>frames\<close> is the iterator, \<open>s\<close> the lines collected so far. The
  body runs before the test of \<open>more\<close>. The result is the error of \<open>Execute\<close>, or the
  lines.\<close>

function Trace_loop :: "template \<Rightarrow> Frame list \<Rightarrow> string list \<Rightarrow> errval + string list" where
  "Trace_loop t frames s =
     (case Frames_Next frames of
        (frame, more', frames') \<Rightarrow>
          (case t frame of
             Inl err \<Rightarrow> Inl err
           | Inr b \<Rightarrow> (if \<not> more' then Inr (s @ [b]) else Trace_loop t frames' (s @ [b]))))"
  by pat_completeness auto
termination
  by (relation "measure (\<lambda>(t, frames, s). length frames)")
     (auto simp: Frames_Next_def split: list.splits)

text \<open>\<open>Trace\<close>: a \<open>nil\<close> slice is the empty list (the slice returned with a \<open>nil\<close> error
  after the loop always holds a line).\<close>

definition Trace :: "runtime \<Rightarrow> uintptr list \<Rightarrow> error \<Rightarrow> template \<Rightarrow> string list \<times> error" where
  "Trace rt stk e t =
     (case errors_As e of
        None \<Rightarrow> ([], None)
      | Some se \<Rightarrow>
          (case Trace_loop t (errorStack_StackTrace rt se) [] of
             Inl err \<Rightarrow> ([], Wrap rt (pc_Trace rt # stk) (Some err))
           | Inr s \<Rightarrow> (s, None)))"

text \<open>
  \<open>Format\<close>: \<open>flag\<close> is \<open>s.Flag\<close>, the result is what the method writes to \<open>s\<close>, and \<open>None\<close>
  when an \<open>Error\<close> method it calls panics. \<open>fmt_plus_v\<close> is \<open>fmt.Fprintf(s, "%+v", x)\<close> for
  an operand of type \<open>error\<close>: \<open><nil>\<close> for \<open>nil\<close>, the \<open>Format\<close> method with verb \<open>v\<close> and flag
  \<open>+\<close> for a value that has one, the \<open>Error\<close> string otherwise. (The frames of \<open>fmt\<close> between
  the two \<open>Format\<close> calls are left out of \<open>stk\<close>: the stack only reaches the error result
  of \<open>Trace\<close>, which \<open>Format\<close> drops.)
\<close>

function (sequential)
  errorStack_Format :: "runtime \<Rightarrow> uintptr list \<Rightarrow> errorStack \<Rightarrow> (char \<Rightarrow> bool) \<Rightarrow> char \<Rightarrow> string option"
  and fmt_plus_v :: "runtime \<Rightarrow> uintptr list \<Rightarrow> error \<Rightarrow> string option" where
  "errorStack_Format rt stk e flag verb =
     (if verb = CHR ''v'' then
        (if flag CHR ''+'' then
           (case fmt_plus_v rt stk (errorStack_Unwrap e) of
              None \<Rightarrow> None
            | Some inner \<Rightarrow>
                Some (inner @ newline @
                      strings_Join (fst (Trace rt (pc_Format rt # stk) (Some (Stack e)) StandardFormat))
                        newline))
         else errorStack_Error e)
      else if verb = CHR ''s'' then errorStack_Error e
      else if verb = CHR ''q'' then map_option (Quote rt) (errorStack_Error e)
      else Some [])"
| "fmt_plus_v rt stk None = Some ''<nil>''"
| "fmt_plus_v rt stk (Some (Stack d)) = errorStack_Format rt stk d (\<lambda>c. c = CHR ''+'') CHR ''v''"
| "fmt_plus_v rt stk (Some x) = error_Error x"
  by pat_completeness auto
termination
  apply (relation "measure (\<lambda>x. case x of Inl (rt, stk, e, flag, verb) \<Rightarrow> Suc (size e)
                                      | Inr (rt, stk, err) \<Rightarrow> depth err)")
    apply simp
   apply (simp add: errorStack_Unwrap_def depth_Err)
  apply (simp add: depth_def)
  done

declare Trace_loop.simps [simp del]
declare decimal.simps [simp del]
declare errorStack_Format.simps [simp del]

section \<open>Unwrap chains and the errors a program can hold\<close>

text \<open>The unwrap chain of an error, as \<open>errors.Unwrap\<close> walks it, and the \<open>errorStack\<close>
  values on it, outermost first.\<close>

function chain :: "error \<Rightarrow> errval list" where
  "chain None = []"
| "chain (Some e) = e # chain (errors_Unwrap (Some e))"
  by pat_completeness auto
termination
  by (relation "measure depth") (simp_all add: depth_Unwrap del: errors_Unwrap.simps)

fun decorator_of :: "errval \<Rightarrow> errorStack list" where
  "decorator_of (Stack d) = [d]"
| "decorator_of e = []"

definition decorators :: "error \<Rightarrow> errorStack list" where
  "decorators err = concat (map decorator_of (chain err))"

text \<open>The number of recursive calls \<open>StackTrace\<close> makes before it builds the iterator.\<close>

fun StackTrace_calls :: "errorStack \<Rightarrow> nat" where
  "StackTrace_calls (ErrorStack err tr (Some e)) = Suc (StackTrace_calls e)"
| "StackTrace_calls (ErrorStack err tr None) = 0"

text \<open>The counters \<open>StackTrace\<close> resolves to, before \<open>runtime.CallersFrames\<close>.\<close>

fun resolved_trace :: "errorStack \<Rightarrow> uintptr list" where
  "resolved_trace (ErrorStack err tr (Some e)) = resolved_trace e"
| "resolved_trace (ErrorStack err tr None) = tr"

text \<open>What \<open>fmt\<close> guarantees of its printer: the operand it wraps is one of the operands
  of the call, an error that is not \<open>nil\<close>.\<close>

definition printer_ok :: "runtime \<Rightarrow> bool" where
  "printer_ok rt =
     (\<forall>format vals s w. doPrintf rt format vals = (s, Some w) \<longrightarrow> VError (Some w) \<in> set vals)"

text \<open>
  The errors a program can hold: \<open>nil\<close>, the errors of \<open>errors.New\<close> and \<open>fmt.Errorf\<close>,
  errors of other types around them, what \<open>errors.Unwrap\<close> returns, and the results of the
  three constructors of the package, in any composition. The type \<open>errorStack\<close> is not
  exported, so there is no other way to build one. A function always runs with a caller
  below it (at least the entry of its goroutine), so the stack a constructor is called
  with is not empty.
\<close>

inductive produced :: "runtime \<Rightarrow> error \<Rightarrow> bool" for rt :: runtime where
  p_nil: "produced rt None"
| p_new: "produced rt (errors_New a s)"
| p_wrap: "produced rt (Some e) \<Longrightarrow> produced rt (Some (WrapError a s e))"
| p_other: "produced rt n \<Longrightarrow> produced rt (Some (OtherError c i m n))"
| p_unwrap: "produced rt e \<Longrightarrow> produced rt (errors_Unwrap e)"
| p_Wrap: "produced rt e \<Longrightarrow> stk \<noteq> [] \<Longrightarrow> produced rt (Wrap rt stk e)"
| p_New: "stk \<noteq> [] \<Longrightarrow> produced rt (New rt stk a msg)"
| p_Errorf: "(\<forall>e. VError e \<in> set vals \<longrightarrow> produced rt e) \<Longrightarrow> stk \<noteq> [] \<Longrightarrow>
             produced rt (Errorf rt stk a format vals)"

text \<open>The shape of the decorators of a chain: the innermost one holds the captured
  counters and has no earlier decorator; every other one holds no counters and its
  \<open>earlier\<close> field is the innermost one.\<close>

definition single_capture :: "errorStack list \<Rightarrow> bool" where
  "single_capture ds =
     (ds = [] \<or>
      (trace (last ds) \<noteq> [] \<and> earlier (last ds) = None \<and>
       (\<forall>d \<in> set (butlast ds). trace d = [] \<and> earlier d = Some (last ds))))"

section \<open>A concrete runtime\<close>

text \<open>A small symbol table, a printer for the directives \<open>%s\<close>, \<open>%v\<close> and \<open>%w\<close> (the ones
  the package's tests use) and a quoting function for printable ASCII, to run the
  package on concrete inputs.\<close>

definition symtab0 :: "uintptr \<Rightarrow> Frame list" where
  "symtab0 pc =
     (if pc = 0x401000 then [\<lparr>Function = ''main.load'', File = ''main.go'', Line = 12\<rparr>]
      else if pc = 0x402000 then [\<lparr>Function = ''main.main'', File = ''main.go'', Line = 30\<rparr>]
      else if pc = 0x403000 then [\<lparr>Function = ''runtime.goexit'', File = ''asm.s'', Line = 1357\<rparr>]
      else if pc = 0x404000 then [\<lparr>Function = ''main.report'', File = ''main.go'', Line = 41\<rparr>]
      else [])"

fun render_operand :: "val \<Rightarrow> string" where
  "render_operand (VString s) = s"
| "render_operand (VInt i) = itoa i"
| "render_operand (VError None) = ''<nil>''"
| "render_operand (VError (Some e)) = (case error_Error e of Some s \<Rightarrow> s | None \<Rightarrow> [])"

fun doPrintf_basic :: "string \<Rightarrow> val list \<Rightarrow> string \<times> errval option" where
  "doPrintf_basic [] vals = ([], None)"
| "doPrintf_basic [c] vals = ([c], None)"
| "doPrintf_basic (c # v # fs) vals =
     (if c = CHR ''%'' then
        (case vals of
           [] \<Rightarrow> (case doPrintf_basic fs [] of (s, w) \<Rightarrow> (''%!'' @ [v] @ ''(MISSING)'' @ s, w))
         | x # xs \<Rightarrow>
             (case doPrintf_basic fs xs of
                (s, w) \<Rightarrow>
                  (render_operand x @ s,
                   if v = CHR ''w'' then (case x of VError (Some e) \<Rightarrow> Some e | _ \<Rightarrow> w) else w)))
      else (case doPrintf_basic (v # fs) vals of (s, w) \<Rightarrow> (c # s, w)))"

definition quote_ascii :: "string \<Rightarrow> string" where
  "quote_ascii s =
     CHR 0x22 # concat (map (\<lambda>c. if c = CHR 0x22 \<or> c = CHR 0x5C then [CHR 0x5C, c] else [c]) s)
       @ [CHR 0x22]"

definition rt0 :: runtime where
  "rt0 = \<lparr>symtab = symtab0, doPrintf = doPrintf_basic, Quote = quote_ascii,
          pc_Callers = 0x500000, pc_buildStackTrace = 0x500100, pc_Wrap = 0x500200,
          pc_New = 0x500300, pc_Errorf = 0x500400, pc_Trace = 0x500500,
          pc_Format = 0x500600\<rparr>"

text \<open>Re-wrapping through \<open>Errorf\<close>, any number of times: \<open>rewrapped rt d1 e\<close> when \<open>e\<close> is
  \<open>d1\<close>, or the result of \<open>Errorf\<close> on a format and operands whose \<open>%w\<close> operand is an error
  so obtained.\<close>

inductive rewrapped :: "runtime \<Rightarrow> error \<Rightarrow> error \<Rightarrow> bool" for rt :: runtime and d1 :: error where
  rw_base: "rewrapped rt d1 d1"
| rw_step: "rewrapped rt d1 (Some x) \<Longrightarrow> doPrintf rt format vals = (s, Some x) \<Longrightarrow>
            rewrapped rt d1 (Errorf rt stk a format vals)"

text \<open>The scenario of the specification: \<open>d1 = New("inner")\<close> called from \<open>main.main\<close>,
  \<open>d2 = Errorf("wrapped: %w", d1)\<close> and \<open>d3 = Errorf("double: %w", d2)\<close>, called from other
  frames. These are the three \<open>errorStack\<close> values.\<close>

definition ex_D1 :: errorStack where
  "ex_D1 = ErrorStack (Some (ErrorString 1 ''inner'')) [0x402000, 0x403000] None"

definition ex_D2 :: errorStack where
  "ex_D2 = ErrorStack (Some (WrapError 2 ''wrapped: inner'' (Stack ex_D1))) [] (Some ex_D1)"

definition ex_D3 :: errorStack where
  "ex_D3 = ErrorStack (Some (WrapError 3 ''double: wrapped: inner'' (Stack ex_D2))) []
             (Some ex_D1)"

text \<open>The line \<open>StandardFormat\<close> renders for a frame.\<close>

definition standard_line :: "Frame \<Rightarrow> string" where
  "standard_line frame = Function frame @ '' ('' @ File frame @ '':'' @ itoa (Line frame) @ '')''"

text \<open>Two templates that fail on the frame of \<open>runtime.goexit\<close> and render the function
  name of every other frame. The first fails with an error whose unwrap chain holds a
  decorator: a template function returned an error of this package, and the template
  engine wrapped it (a \<open>template.ExecError\<close>, a comparable struct with an \<open>Unwrap\<close>
  method, around the error of \<open>fmt.Errorf("error calling %s: %w", ...)\<close>). The second
  fails with a plain error, as for an undefined field.\<close>

definition ex_render_error :: errval where
  "ex_render_error =
     OtherError True 6 ''error calling lookup: no such key''
       (Some (WrapError 5 ''error calling lookup: no such key''
          (Stack (ErrorStack (Some (ErrorString 4 ''no such key''))
                    [0x401000, 0x402000, 0x403000] None))))"

definition ex_failing_template :: template where
  "ex_failing_template frame =
     (if Function frame = ''runtime.goexit'' then Inl ex_render_error
      else Inr (Function frame))"

definition ex_bad_field_template :: template where
  "ex_bad_field_template frame =
     (if Function frame = ''runtime.goexit''
      then Inl (ErrorString 9 ''cannot evaluate field Foobar'')
      else Inr (Function frame))"

text \<open>An error that matches itself under \<open>errors.Is\<close>: a value of a comparable type, or
  a decorator whose \<open>Err\<close> field is \<open>nil\<close> or again such an error. The second function is the
  same for a decorator.\<close>

fun matches_itself :: "errval \<Rightarrow> bool"
  and errorStack_matches_itself :: "errorStack \<Rightarrow> bool" where
  "matches_itself (ErrorString a s) = True"
| "matches_itself (WrapError a s e) = True"
| "matches_itself (OtherError c i m n) = c"
| "matches_itself (Stack d) = errorStack_matches_itself d"
| "errorStack_matches_itself (ErrorStack err tr ea) =
     (case err of None \<Rightarrow> True | Some x \<Rightarrow> matches_itself x)"

text \<open>A decorator around an error of a slice type (not comparable, no \<open>Is\<close> method), as
  \<open>Wrap\<close> returns for an error list of a parser.\<close>

definition ex_list_error :: errorStack where
  "ex_list_error =
     ErrorStack (Some (OtherError False 0 ''main.go:3:1: expected declaration'' None))
       [0x402000, 0x403000] None"

section \<open>Basic facts\<close>

lemma buildStackTrace_entry: "buildStackTrace rt (pc # stk) = take 20 stk"
  by (simp add: buildStackTrace_def runtime_Callers_def)

lemma decorators_None: "decorators None = []"
  by (simp add: decorators_def)

lemma decorators_Stack: "decorators (Some (Stack d)) = d # decorators (Err d)"
  by (simp add: decorators_def errorStack_Unwrap_def)

lemma decorators_ErrorString: "decorators (Some (ErrorString a s)) = []"
  by (simp add: decorators_def)

lemma decorators_WrapError: "decorators (Some (WrapError a s e)) = decorators (Some e)"
  by (simp add: decorators_def)

lemma decorators_OtherError: "decorators (Some (OtherError c i m n)) = decorators n"
  by (simp add: decorators_def)

lemmas decorators_simps = decorators_None decorators_Stack decorators_ErrorString
  decorators_WrapError decorators_OtherError

text \<open>\<open>errors.As\<close> finds the outermost decorator of the chain.\<close>

lemma errors_As_decorators:
  "errors_As err = (case decorators err of [] \<Rightarrow> None | d # ds \<Rightarrow> Some d)"
  by (induction err rule: errors_As.induct) (simp_all add: decorators_simps)

lemma errors_As_None_iff: "errors_As err = None \<longleftrightarrow> decorators err = []"
  by (simp add: errors_As_decorators split: list.splits)

lemma HasStack_iff: "HasStack err \<longleftrightarrow> decorators err \<noteq> []"
  by (simp add: HasStack_def errors_As_None_iff)

lemma Wrap_decorated: "decorators err \<noteq> [] \<Longrightarrow> Wrap rt stk err = err"
  by (cases err) (auto simp: Wrap_def errors_As_decorators decorators_None split: list.splits)

lemma Wrap_plain:
  "decorators (Some e) = [] \<Longrightarrow>
   Wrap rt stk (Some e) = Some (Stack (ErrorStack (Some e) (take 20 stk) None))"
  by (simp add: Wrap_def errors_As_decorators buildStackTrace_entry)

lemma HasStack_Wrap: "HasStack (Wrap rt stk (Some e))"
  by (cases "decorators (Some e) = []")
     (simp_all add: Wrap_plain Wrap_decorated HasStack_iff decorators_Stack)

section \<open>Wrap\<close>

text \<open>
  C8. Nil propagation: \<open>Wrap\<close> applied to the \<open>nil\<close> error returns \<open>nil\<close>: nothing is
  captured and no decorator is built, whatever the stack of the call.
\<close>

theorem Wrap_nil: "Wrap rt stk None = None"
  by (simp add: Wrap_def)

text \<open>
  C2. \<open>Wrap\<close> never captures twice. An error whose unwrap chain holds a decorator is
  returned as it is. Hence, for every error \<open>e\<close> that is not \<open>nil\<close>, wrapping the result of
  \<open>Wrap\<close> again (from any other stack) returns that result: \<open>HasStack\<close> holds of both, and
  the display string, the resolved trace and the lines of \<open>Trace\<close> are the same.
\<close>

theorem Wrap_idempotent:
  "(decorators err \<noteq> [] \<longrightarrow> Wrap rt stk err = err) \<and>
   Wrap rt stk2 (Wrap rt stk1 (Some e)) = Wrap rt stk1 (Some e) \<and>
   HasStack (Wrap rt stk1 (Some e)) \<and>
   HasStack (Wrap rt stk2 (Wrap rt stk1 (Some e))) \<and>
   map_option error_Error (Wrap rt stk2 (Wrap rt stk1 (Some e))) =
     map_option error_Error (Wrap rt stk1 (Some e)) \<and>
   map_option (errorStack_StackTrace rt) (errors_As (Wrap rt stk2 (Wrap rt stk1 (Some e)))) =
     map_option (errorStack_StackTrace rt) (errors_As (Wrap rt stk1 (Some e))) \<and>
   Trace rt stk3 (Wrap rt stk2 (Wrap rt stk1 (Some e))) t = Trace rt stk3 (Wrap rt stk1 (Some e)) t"
proof -
  have "decorators (Wrap rt stk1 (Some e)) \<noteq> []"
    using HasStack_Wrap [of rt stk1 e] by (simp add: HasStack_iff)
  then have eq: "Wrap rt stk2 (Wrap rt stk1 (Some e)) = Wrap rt stk1 (Some e)"
    by (rule Wrap_decorated)
  show ?thesis
    by (simp add: eq HasStack_Wrap Wrap_decorated)
qed

text \<open>The scenario of the package's test: an error of \<open>errors.New\<close> wrapped in
  \<open>main.main\<close>, wrapped again one call deeper, and an error of \<open>fmt.Errorf\<close> around a
  decorator.\<close>

theorem Wrap_idempotent_witness:
  "decorators (Some (WrapError 2 ''outer: new err''
      (Stack (ErrorStack (Some (ErrorString 1 ''new err'')) [0x402000, 0x403000] None)))) \<noteq> [] \<and>
   Wrap rt0 [0x401000, 0x402000, 0x403000] (Some (WrapError 2 ''outer: new err''
      (Stack (ErrorStack (Some (ErrorString 1 ''new err'')) [0x402000, 0x403000] None)))) =
     Some (WrapError 2 ''outer: new err''
      (Stack (ErrorStack (Some (ErrorString 1 ''new err'')) [0x402000, 0x403000] None))) \<and>
   Wrap rt0 [0x401000, 0x402000, 0x403000]
      (Wrap rt0 [0x402000, 0x403000] (Some (ErrorString 1 ''new err''))) =
     Some (Stack (ErrorStack (Some (ErrorString 1 ''new err'')) [0x402000, 0x403000] None)) \<and>
   HasStack (Wrap rt0 [0x401000, 0x402000, 0x403000]
      (Wrap rt0 [0x402000, 0x403000] (Some (ErrorString 1 ''new err''))))"
proof -
  have h: "decorators (Some (WrapError 2 ''outer: new err''
      (Stack (ErrorStack (Some (ErrorString 1 ''new err'')) [0x402000, 0x403000] None)))) \<noteq> []"
    by (simp add: decorators_simps)
  have w: "Wrap rt0 [0x402000, 0x403000] (Some (ErrorString 1 ''new err'')) =
     Some (Stack (ErrorStack (Some (ErrorString 1 ''new err'')) [0x402000, 0x403000] None))"
    by (simp add: Wrap_plain decorators_simps)
  show ?thesis
    using h w
      Wrap_idempotent [of "Some (WrapError 2 ''outer: new err''
        (Stack (ErrorStack (Some (ErrorString 1 ''new err'')) [0x402000, 0x403000] None)))"
        rt0 "[0x401000, 0x402000, 0x403000]" "[0x401000, 0x402000, 0x403000]"
        "[0x402000, 0x403000]" "ErrorString 1 ''new err''" "[]" StandardFormat]
    by simp
qed

section \<open>Trace\<close>

text \<open>
  C7. Trace absence: for an error with no decorator anywhere in its unwrap chain, and any
  template, \<open>Trace\<close> returns no line and the \<open>nil\<close> error.
\<close>

theorem Trace_absent: "decorators e = [] \<Longrightarrow> Trace rt stk e t = ([], None)"
  by (simp add: Trace_def errors_As_decorators)

theorem Trace_absent_witness:
  "decorators (errors_New 1 ''error'') = [] \<and>
   Trace rt0 [0x402000, 0x403000] (errors_New 1 ''error'') StandardFormat = ([], None)"
proof -
  have h: "decorators (errors_New 1 ''error'') = []"
    by (simp add: errors_New_def decorators_simps)
  show ?thesis using h Trace_absent [OF h] by simp
qed

section \<open>Errorf\<close>

lemma StackTrace_resolved:
  "errorStack_StackTrace rt d = runtime_CallersFrames rt (resolved_trace d)"
  by (induction d rule: resolved_trace.induct) simp_all

lemma Errorf_found:
  assumes "errors_As (fmt_Errorf rt a format vals) = Some D"
  shows "Errorf rt stk a format vals =
    Some (Stack (ErrorStack (fmt_Errorf rt a format vals) []
                  (Some (case earlier D of None \<Rightarrow> D | Some c \<Rightarrow> c))))"
  using assms by (auto simp: Errorf_def Let_def split: option.splits)

lemma Errorf_fresh:
  assumes "errors_As (fmt_Errorf rt a format vals) = None"
  shows "Errorf rt stk a format vals =
    Some (Stack (ErrorStack (fmt_Errorf rt a format vals) (take 20 stk) None))"
  using assms by (simp add: Errorf_def Let_def buildStackTrace_entry)

lemma resolved_earlier:
  "resolved_trace (case earlier D of None \<Rightarrow> D | Some c \<Rightarrow> c) = resolved_trace D"
  by (cases D rule: resolved_trace.cases) simp_all

lemma Errorf_resolved:
  assumes "errors_As (fmt_Errorf rt a format vals) = Some D"
  shows "\<exists>d. errors_As (Errorf rt stk a format vals) = Some d \<and> resolved_trace d = resolved_trace D"
  by (simp add: Errorf_found [OF assms] resolved_earlier)

lemma fmt_Errorf_wraps:
  "doPrintf rt format vals = (s, Some x) \<Longrightarrow> fmt_Errorf rt a format vals = Some (WrapError a s x)"
  by (simp add: fmt_Errorf_def)

lemma errors_As_WrapError: "errors_As (Some (WrapError a s x)) = errors_As (Some x)"
  by simp

lemma rewrapped_resolved:
  assumes "rewrapped rt d1 e" and "errors_As d1 = Some D1"
  shows "\<exists>d. errors_As e = Some d \<and> resolved_trace d = resolved_trace D1"
  using assms
proof (induction rule: rewrapped.induct)
  case rw_base
  then show ?case by simp
next
  case (rw_step x format vals s stk a)
  then obtain d where d: "errors_As (Some x) = Some d" "resolved_trace d = resolved_trace D1"
    by blast
  have "errors_As (fmt_Errorf rt a format vals) = Some d"
    using rw_step.hyps(2) d(1) by (simp add: fmt_Errorf_wraps)
  from Errorf_resolved [OF this] d(2) show ?case by auto
qed

lemma Trace_resolved:
  assumes "errors_As e = Some d" "errors_As e' = Some d'" "resolved_trace d = resolved_trace d'"
  shows "Trace rt stk e t = Trace rt stk e' t"
  using assms by (simp add: Trace_def StackTrace_resolved)

lemma New_As:
  "errors_As (New rt stk a m) = Some (ErrorStack (errors_New a m) (take 20 stk) None)"
  by (simp add: New_def buildStackTrace_entry)

text \<open>The scenario, evaluated.\<close>

lemma ex_New: "New rt0 [0x402000, 0x403000] 1 ''inner'' = Some (Stack ex_D1)"
  by (simp add: New_def buildStackTrace_entry errors_New_def ex_D1_def)

lemma ex_printf2:
  "doPrintf rt0 ''wrapped: %w'' [VError (Some (Stack ex_D1))] = (''wrapped: inner'', Some (Stack ex_D1))"
  by (simp add: rt0_def ex_D1_def)

lemma ex_printf3:
  "doPrintf rt0 ''double: %w'' [VError (Some (Stack ex_D2))] =
     (''double: wrapped: inner'', Some (Stack ex_D2))"
  by (simp add: rt0_def ex_D2_def ex_D1_def)

lemma ex_Errorf2:
  "Errorf rt0 [0x401000, 0x402000, 0x403000] 2 ''wrapped: %w'' [VError (Some (Stack ex_D1))] =
     Some (Stack ex_D2)"
  by (simp add: Errorf_def fmt_Errorf_def ex_printf2) (simp add: ex_D1_def ex_D2_def)

lemma ex_Errorf3:
  "Errorf rt0 [0x404000, 0x402000, 0x403000] 3 ''double: %w'' [VError (Some (Stack ex_D2))] =
     Some (Stack ex_D3)"
  by (simp add: Errorf_def fmt_Errorf_def ex_printf3) (simp add: ex_D1_def ex_D2_def ex_D3_def)

lemma ex_rewrapped: "rewrapped rt0 (Some (Stack ex_D1)) (Some (Stack ex_D3))"
proof -
  have "rewrapped rt0 (Some (Stack ex_D1)) (Some (Stack ex_D2))"
    using rw_step [OF rw_base ex_printf2, of "[0x401000, 0x402000, 0x403000]" 2]
    by (simp add: ex_Errorf2)
  from rw_step [OF this ex_printf3, of "[0x404000, 0x402000, 0x403000]" 3]
  show ?thesis by (simp add: ex_Errorf3)
qed

text \<open>
  C1. Chain flattening. When the error that \<open>fmt.Errorf\<close> built already holds a decorator
  \<open>D\<close> on its unwrap chain, the decorator \<open>Errorf\<close> returns has no counters of its own and
  its \<open>earlier\<close> field is \<open>D.earlier\<close> when that is set and \<open>D\<close> otherwise. Hence, for
  \<open>d1 = New(m)\<close> and any error \<open>e\<close> obtained from \<open>d1\<close> by re-wrapping through \<open>Errorf\<close> any
  number of times, the trace \<open>e\<close> resolves to is the one \<open>d1\<close> captured (the first 20
  counters of the stack \<open>New\<close> was called with, in order), and \<open>Trace\<close> returns the same on
  \<open>e\<close> and on \<open>d1\<close>.
\<close>

theorem Errorf_flattening:
  "(errors_As (fmt_Errorf rt a format vals) = Some D \<longrightarrow>
      Errorf rt stk a format vals =
        Some (Stack (ErrorStack (fmt_Errorf rt a format vals) []
                      (Some (case earlier D of None \<Rightarrow> D | Some c \<Rightarrow> c))))) \<and>
   (rewrapped rt (New rt stk1 a1 m) e \<longrightarrow>
      (\<exists>d. errors_As e = Some d \<and> resolved_trace d = take 20 stk1 \<and>
           errorStack_StackTrace rt d = runtime_CallersFrames rt (take 20 stk1)) \<and>
      Trace rt stk2 e t = Trace rt stk2 (New rt stk1 a1 m) t)"
proof (intro conjI impI)
  assume "errors_As (fmt_Errorf rt a format vals) = Some D"
  then show "Errorf rt stk a format vals =
        Some (Stack (ErrorStack (fmt_Errorf rt a format vals) []
                      (Some (case earlier D of None \<Rightarrow> D | Some c \<Rightarrow> c))))"
    by (rule Errorf_found)
next
  assume r: "rewrapped rt (New rt stk1 a1 m) e"
  from rewrapped_resolved [OF r New_As]
  obtain d where d: "errors_As e = Some d" "resolved_trace d = take 20 stk1"
    by auto
  show "\<exists>d. errors_As e = Some d \<and> resolved_trace d = take 20 stk1 \<and>
           errorStack_StackTrace rt d = runtime_CallersFrames rt (take 20 stk1)"
    using d by (simp add: StackTrace_resolved)
next
  assume r: "rewrapped rt (New rt stk1 a1 m) e"
  from rewrapped_resolved [OF r New_As]
  obtain d where d: "errors_As e = Some d" "resolved_trace d = take 20 stk1"
    by auto
  show "Trace rt stk2 e t = Trace rt stk2 (New rt stk1 a1 m) t"
    by (rule Trace_resolved [OF d(1) New_As]) (simp add: d(2))
qed

theorem Errorf_flattening_witness:
  "errors_As (fmt_Errorf rt0 3 ''double: %w'' [VError (Some (Stack ex_D2))]) = Some ex_D2 \<and>
   Errorf rt0 [0x404000, 0x402000, 0x403000] 3 ''double: %w'' [VError (Some (Stack ex_D2))] =
     Some (Stack (ErrorStack (Some (WrapError 3 ''double: wrapped: inner'' (Stack ex_D2))) []
                   (Some ex_D1))) \<and>
   rewrapped rt0 (New rt0 [0x402000, 0x403000] 1 ''inner'') (Some (Stack ex_D3)) \<and>
   (\<exists>d. errors_As (Some (Stack ex_D3)) = Some d \<and> resolved_trace d = [0x402000, 0x403000] \<and>
        errorStack_StackTrace rt0 d = runtime_CallersFrames rt0 [0x402000, 0x403000]) \<and>
   Trace rt0 [] (Some (Stack ex_D3)) StandardFormat =
     Trace rt0 [] (New rt0 [0x402000, 0x403000] 1 ''inner'') StandardFormat"
proof -
  have a: "errors_As (fmt_Errorf rt0 3 ''double: %w'' [VError (Some (Stack ex_D2))]) = Some ex_D2"
    by (simp add: fmt_Errorf_def ex_printf3)
  have f: "fmt_Errorf rt0 3 ''double: %w'' [VError (Some (Stack ex_D2))] =
      Some (WrapError 3 ''double: wrapped: inner'' (Stack ex_D2))"
    by (simp add: fmt_Errorf_def ex_printf3)
  have e: "earlier ex_D2 = Some ex_D1"
    by (simp add: ex_D2_def)
  have r: "rewrapped rt0 (New rt0 [0x402000, 0x403000] 1 ''inner'') (Some (Stack ex_D3))"
    using ex_rewrapped by (simp only: ex_New)
  show ?thesis
    using a f e r
      Errorf_flattening [of rt0 3 "''double: %w''" "[VError (Some (Stack ex_D2))]" ex_D2
        "[0x404000, 0x402000, 0x403000]" "[0x402000, 0x403000]" 1 "''inner''"
        "Some (Stack ex_D3)" "[]" StandardFormat]
    by simp
qed

section \<open>The decorators of a chain\<close>

lemma single_capture_Nil: "single_capture []"
  by (simp add: single_capture_def)

lemma single_capture_single:
  "trace d \<noteq> [] \<Longrightarrow> earlier d = None \<Longrightarrow> single_capture [d]"
  by (simp add: single_capture_def)

lemma single_capture_tl: "single_capture (d # ds) \<Longrightarrow> single_capture ds"
  by (cases ds) (auto simp: single_capture_def)

lemma single_capture_Cons:
  assumes "single_capture ds" "ds \<noteq> []" "trace d = []" "earlier d = Some (last ds)"
  shows "single_capture (d # ds)"
  using assms by (auto simp: single_capture_def)

lemma single_capture_hd_earlier:
  assumes "single_capture (D # ds)"
  shows "(case earlier D of None \<Rightarrow> D | Some c \<Rightarrow> c) = last (D # ds)"
  using assms by (cases ds) (auto simp: single_capture_def)

lemma decorators_Unwrap_cases:
  "decorators (errors_Unwrap e) = decorators e \<or> decorators (errors_Unwrap e) = tl (decorators e)"
proof (cases e)
  case None
  then show ?thesis by simp
next
  case (Some x)
  then show ?thesis
    by (cases x) (simp_all add: decorators_simps errorStack_Unwrap_def)
qed

lemma fmt_Errorf_cases:
  assumes "printer_ok rt"
  shows "(\<exists>s. fmt_Errorf rt a format vals = Some (ErrorString a s)) \<or>
         (\<exists>s w. fmt_Errorf rt a format vals = Some (WrapError a s w) \<and> VError (Some w) \<in> set vals)"
proof (cases "doPrintf rt format vals")
  case (Pair s w)
  show ?thesis
  proof (cases w)
    case None
    with Pair show ?thesis by (simp add: fmt_Errorf_def errors_New_def)
  next
    case (Some x)
    with Pair assms have "VError (Some x) \<in> set vals"
      unfolding printer_ok_def by blast
    with Pair Some show ?thesis by (simp add: fmt_Errorf_def)
  qed
qed

lemma take_20_nonempty: "stk \<noteq> [] \<Longrightarrow> take 20 stk \<noteq> []"
  by (cases stk) simp_all

lemma Errorf_single_capture:
  assumes sc: "single_capture (decorators err)" and stk: "stk \<noteq> []"
    and err: "fmt_Errorf rt a format vals = err"
  shows "single_capture (decorators (Errorf rt stk a format vals))"
proof (cases "decorators err")
  case Nil
  then have "errors_As (fmt_Errorf rt a format vals) = None"
    by (simp add: err errors_As_None_iff)
  from Errorf_fresh [OF this] show ?thesis
    by (simp add: decorators_simps err Nil single_capture_single take_20_nonempty stk)
next
  case (Cons D ds)
  then have "errors_As (fmt_Errorf rt a format vals) = Some D"
    by (simp add: err errors_As_decorators)
  from Errorf_found [OF this]
  have eq: "Errorf rt stk a format vals =
      Some (Stack (ErrorStack err [] (Some (last (D # ds)))))"
    using single_capture_hd_earlier [of D ds] sc Cons by (simp add: err)
  show ?thesis
    unfolding eq decorators_Stack
    by (rule single_capture_Cons) (use sc Cons in simp_all)
qed

lemma Wrap_single_capture:
  assumes sc: "single_capture (decorators e)" and stk: "stk \<noteq> []"
  shows "single_capture (decorators (Wrap rt stk e))"
proof (cases e)
  case None
  then show ?thesis by (simp add: Wrap_def decorators_simps single_capture_Nil)
next
  case (Some x)
  show ?thesis
  proof (cases "decorators (Some x) = []")
    case True
    then show ?thesis
      by (simp add: Some Wrap_plain decorators_simps single_capture_single take_20_nonempty stk)
  next
    case False
    then show ?thesis using sc by (simp add: Some Wrap_decorated)
  qed
qed

lemma produced_single_capture:
  assumes ok: "printer_ok rt" and p: "produced rt err"
  shows "single_capture (decorators err)"
  using p
proof (induction rule: produced.induct)
  case p_nil
  show ?case by (simp add: decorators_simps single_capture_Nil)
next
  case (p_new a s)
  show ?case by (simp add: errors_New_def decorators_simps single_capture_Nil)
next
  case (p_wrap e a s)
  then show ?case by (simp add: decorators_simps)
next
  case (p_other n c i m)
  then show ?case by (simp add: decorators_simps)
next
  case (p_unwrap e)
  show ?case
  proof (cases "decorators e")
    case Nil
    with decorators_Unwrap_cases [of e] show ?thesis by (auto simp: single_capture_Nil)
  next
    case (Cons d ds)
    with decorators_Unwrap_cases [of e] p_unwrap.IH single_capture_tl [of d ds]
    show ?thesis by auto
  qed
next
  case (p_Wrap e stk)
  then show ?case by (simp add: Wrap_single_capture)
next
  case (p_New stk a msg)
  then show ?case
    by (simp add: New_def buildStackTrace_entry errors_New_def decorators_simps
        single_capture_single take_20_nonempty)
next
  case (p_Errorf vals stk a format)
  from fmt_Errorf_cases [OF ok, of a format vals]
  have "single_capture (decorators (fmt_Errorf rt a format vals))"
  proof (elim disjE exE conjE)
    fix s assume "fmt_Errorf rt a format vals = Some (ErrorString a s)"
    then show ?thesis by (simp add: decorators_simps single_capture_Nil)
  next
    fix s w assume f: "fmt_Errorf rt a format vals = Some (WrapError a s w)"
      and w: "VError (Some w) \<in> set vals"
    from p_Errorf.IH w have "single_capture (decorators (Some w))" by blast
    then show ?thesis by (simp add: f decorators_simps)
  qed
  then show ?case
    by (rule Errorf_single_capture) (simp_all add: p_Errorf.hyps)
qed



lemma single_capture_other:
  assumes "single_capture ds" "d \<in> set ds" "d \<noteq> last ds"
  shows "trace d = [] \<and> earlier d = Some (last ds)"
proof -
  from assms(2) have "ds \<noteq> []" by auto
  then have "ds = butlast ds @ [last ds]" by simp
  then have "set ds = set (butlast ds) \<union> {last ds}"
    by (metis Un_insert_right list.simps(15) set_append sup_bot.right_neutral list.set(1))
  with assms(2,3) have "d \<in> set (butlast ds)" by auto
  with assms(1) \<open>ds \<noteq> []\<close> show ?thesis by (auto simp: single_capture_def)
qed


lemma StackTrace_calls_0: "earlier e = None \<Longrightarrow> StackTrace_calls e = 0"
  by (cases e) simp

lemma resolved_trace_own: "earlier e = None \<Longrightarrow> resolved_trace e = trace e"
  by (cases e) simp

lemma StackTrace_calls_le:
  "earlier d = None \<or> (\<exists>c. earlier d = Some c \<and> earlier c = None) \<Longrightarrow> StackTrace_calls d \<le> 1"
  by (cases d rule: StackTrace_calls.cases) (auto simp: StackTrace_calls_0)

lemma resolved_one_step:
  "earlier d = None \<or> (\<exists>c. earlier d = Some c \<and> earlier c = None) \<Longrightarrow>
   resolved_trace d = trace (case earlier d of None \<Rightarrow> d | Some c \<Rightarrow> c)"
  by (cases d rule: resolved_trace.cases) (auto simp: resolved_trace_own)


text \<open>The printer of the concrete runtime wraps an operand of the call, and the errors
  of the scenario are produced by the constructors.\<close>

lemma doPrintf_basic_wraps:
  "doPrintf_basic f vals = (s, Some w) \<Longrightarrow> VError (Some w) \<in> set vals"
proof (induction f vals arbitrary: s rule: doPrintf_basic.induct)
  case (1 vals)
  then show ?case by simp
next
  case (2 c vals)
  then show ?case by simp
next
  case (3 c v fs vals)
  show ?case
  proof (cases "c = CHR ''%''")
    case False
    with 3 show ?thesis by (auto split: prod.splits)
  next
    case True
    show ?thesis
    proof (cases vals)
      case Nil
      with 3 True show ?thesis by (auto split: prod.splits)
    next
      case (Cons x xs)
      with 3 True show ?thesis
        by (auto split: prod.splits if_splits val.splits option.splits)
    qed
  qed
qed

lemma printer_ok_rt0: "printer_ok rt0"
  by (auto simp: printer_ok_def rt0_def dest: doPrintf_basic_wraps)

lemma ex_produced1: "produced rt0 (Some (Stack ex_D1))"
  using p_New [of "[0x402000, 0x403000]" rt0 1 "''inner''"] by (simp only: ex_New) simp

lemma ex_produced2: "produced rt0 (Some (Stack ex_D2))"
  using p_Errorf [of "[VError (Some (Stack ex_D1))]" rt0 "[0x401000, 0x402000, 0x403000]" 2
      "''wrapped: %w''"] ex_produced1
  by (simp add: ex_Errorf2)

lemma ex_produced3: "produced rt0 (Some (Stack ex_D3))"
  using p_Errorf [of "[VError (Some (Stack ex_D2))]" rt0 "[0x404000, 0x402000, 0x403000]" 3
      "''double: %w''"] ex_produced2
  by (simp add: ex_Errorf3)

lemma ex_decorators: "decorators (Some (Stack ex_D3)) = [ex_D3, ex_D2, ex_D1]"
  by (simp add: decorators_simps ex_D3_def ex_D2_def ex_D1_def)







text \<open>
  C10. The \<open>earlier\<close> reference is at most one level deep. For every decorator on the
  chain of an error produced by the constructors, the decorator its \<open>earlier\<close> field
  points to has no \<open>earlier\<close> field of its own and holds the captured counters. So
  \<open>StackTrace\<close> makes at most one recursive call before it builds the iterator (it is a
  total function: it terminates on every decorator), and the iterator is built from the
  counters of the decorator itself or of the one its \<open>earlier\<close> field points to.
\<close>

theorem earlier_depth_one:
  assumes "printer_ok rt" and "produced rt err" and "d \<in> set (decorators err)"
  shows "(\<forall>c. earlier d = Some c \<longrightarrow> earlier c = None \<and> trace c \<noteq> []) \<and>
         StackTrace_calls d \<le> 1 \<and>
         errorStack_StackTrace rt d =
           runtime_CallersFrames rt (trace (case earlier d of None \<Rightarrow> d | Some c \<Rightarrow> c))"
proof -
  let ?ds = "decorators err"
  have sc: "single_capture ?ds"
    using assms(1,2) by (rule produced_single_capture)
  have ne: "?ds \<noteq> []" using assms(3) by auto
  have l: "trace (last ?ds) \<noteq> []" "earlier (last ?ds) = None"
    using sc ne by (auto simp: single_capture_def)
  have shape: "earlier d = None \<or> (\<exists>c. earlier d = Some c \<and> earlier c = None)"
    using single_capture_other [OF sc assms(3)] l by (cases "d = last ?ds") auto
  have a: "\<forall>c. earlier d = Some c \<longrightarrow> earlier c = None \<and> trace c \<noteq> []"
    using single_capture_other [OF sc assms(3)] l by (cases "d = last ?ds") auto
  show ?thesis
    using a StackTrace_calls_le [OF shape] resolved_one_step [OF shape]
    by (simp add: StackTrace_resolved)
qed

theorem earlier_depth_one_witness:
  "printer_ok rt0 \<and> produced rt0 (Some (Stack ex_D3)) \<and>
   ex_D3 \<in> set (decorators (Some (Stack ex_D3))) \<and>
   earlier ex_D3 = Some ex_D1 \<and> earlier ex_D1 = None \<and> trace ex_D1 \<noteq> [] \<and>
   StackTrace_calls ex_D3 \<le> 1 \<and>
   errorStack_StackTrace rt0 ex_D3 = runtime_CallersFrames rt0 (trace ex_D1)"
proof -
  have m: "ex_D3 \<in> set (decorators (Some (Stack ex_D3)))"
    by (simp add: ex_decorators)
  have e: "earlier ex_D3 = Some ex_D1"
    by (simp add: ex_D3_def)
  show ?thesis
    using earlier_depth_one [OF printer_ok_rt0 ex_produced3 m] printer_ok_rt0 ex_produced3 m e
    by simp
qed

section \<open>The lines of Trace\<close>

lemma StandardFormat_line: "StandardFormat f = Inr (standard_line f)"
  by (simp add: StandardFormat_def standard_line_def)

lemma Trace_loop_Cons:
  "Trace_loop t (f # fs) s =
     (case t f of Inl err \<Rightarrow> Inl err
      | Inr b \<Rightarrow> (if fs = [] then Inr (s @ [b]) else Trace_loop t fs (s @ [b])))"
  by (subst Trace_loop.simps) (simp add: Frames_Next_def split: sum.splits)

lemma Trace_loop_Nil:
  "Trace_loop t [] s = (case t Frame_zero of Inl err \<Rightarrow> Inl err | Inr b \<Rightarrow> Inr (s @ [b]))"
  by (subst Trace_loop.simps) (simp add: Frames_Next_def split: sum.splits)

lemma Trace_loop_renders:
  assumes "frames \<noteq> []" and "\<forall>f \<in> set frames. t f = Inr (r f)"
  shows "Trace_loop t frames s = Inr (s @ map r frames)"
  using assms
proof (induction frames arbitrary: s)
  case Nil
  then show ?case by simp
next
  case (Cons f fs)
  show ?case
  proof (cases "fs = []")
    case True
    with Cons.prems show ?thesis by (simp add: Trace_loop_Cons)
  next
    case False
    with Cons.prems Cons.IH [of "s @ [r f]"] show ?thesis
      by (simp add: Trace_loop_Cons)
  qed
qed

lemma Trace_loop_fails:
  assumes "\<forall>g \<in> set pre. t g = Inr (r g)" and "t f = Inl err"
  shows "Trace_loop t (pre @ f # post) s = Inl err"
  using assms
proof (induction pre arbitrary: s)
  case Nil
  then show ?case by (simp add: Trace_loop_Cons)
next
  case (Cons g gs)
  then show ?case by (simp add: Trace_loop_Cons)
qed

lemma ex_frames: "errorStack_StackTrace rt0 ex_D1 =
    [\<lparr>Function = ''main.main'', File = ''main.go'', Line = 30\<rparr>,
     \<lparr>Function = ''runtime.goexit'', File = ''asm.s'', Line = 1357\<rparr>]"
  by (simp add: ex_D1_def runtime_CallersFrames_def rt0_def symtab0_def)

lemma ex_frames3: "errorStack_StackTrace rt0 ex_D3 = errorStack_StackTrace rt0 ex_D1"
  by (simp add: ex_D3_def ex_D1_def)

lemma decimal_30: "decimal 30 = ''30''"
  by code_simp

lemma decimal_1357: "decimal 1357 = ''1357''"
  by code_simp

lemma ex_lines:
  "map standard_line (errorStack_StackTrace rt0 ex_D1) =
     [''main.main (main.go:30)'', ''runtime.goexit (asm.s:1357)'']"
  by (simp add: ex_frames standard_line_def itoa_def decimal_30 decimal_1357)

text \<open>Every decorator the constructors produce resolves to captured counters.\<close>

lemma resolved_trace_earlier: "earlier d = Some c \<Longrightarrow> resolved_trace d = resolved_trace c"
  by (cases d) simp

lemma produced_captures:
  assumes "printer_ok rt" and "produced rt e" and "errors_As e = Some se"
  shows "resolved_trace se \<noteq> []"
proof -
  have sc: "single_capture (decorators e)"
    using assms(1,2) by (rule produced_single_capture)
  from assms(3) obtain ds where ds: "decorators e = se # ds"
    by (auto simp: errors_As_decorators split: list.splits)
  have l: "trace (last (se # ds)) \<noteq> []" "earlier (last (se # ds)) = None"
    using sc ds by (auto simp: single_capture_def)
  show ?thesis
  proof (cases "se = last (se # ds)")
    case True
    with l show ?thesis by (simp add: resolved_trace_own)
  next
    case False
    with single_capture_other [of "se # ds" se] sc ds
    have "earlier se = Some (last (se # ds))" by simp
    then have "resolved_trace se = resolved_trace (last (se # ds))"
      by (rule resolved_trace_earlier)
    with l show ?thesis by (simp add: resolved_trace_own)
  qed
qed

text \<open>
  C4. One line per frame, in stack order. For an error whose unwrap chain holds a
  decorator (\<open>se\<close> is the outermost one, the one \<open>errors.As\<close> finds) and a template that
  renders every resolved frame (\<open>r\<close> is what it renders), \<open>Trace\<close> returns the rendered
  lines, one per resolved frame and in the order of the frames, and the \<open>nil\<close> error. The
  frames are those of the resolved counters in the order they were captured, the caller
  of the constructor first. The resolved frames are not empty: the constructors always
  capture the counter of their caller (\<open>produced_captures\<close>).
\<close>

theorem Trace_lines:
  assumes "errors_As e = Some se"
    and "errorStack_StackTrace rt se \<noteq> []"
    and "\<forall>f \<in> set (errorStack_StackTrace rt se). t f = Inr (r f)"
  shows "Trace rt stk e t = (map r (errorStack_StackTrace rt se), None) \<and>
         errorStack_StackTrace rt se = concat (map (symtab rt) (resolved_trace se))"
  using Trace_loop_renders [OF assms(2,3), of "[]"] assms(1)
  by (simp add: Trace_def StackTrace_resolved runtime_CallersFrames_def)


theorem Trace_lines_witness:
  "errors_As (Some (Stack ex_D3)) = Some ex_D3 \<and>
   errorStack_StackTrace rt0 ex_D3 \<noteq> [] \<and>
   Trace rt0 [0x402000, 0x403000] (Some (Stack ex_D3)) StandardFormat =
     ([''main.main (main.go:30)'', ''runtime.goexit (asm.s:1357)''], None)"
proof -
  have a: "errors_As (Some (Stack ex_D3)) = Some ex_D3" by simp
  have n: "errorStack_StackTrace rt0 ex_D3 \<noteq> []" by (simp add: ex_frames3 ex_frames)
  have r: "\<forall>f \<in> set (errorStack_StackTrace rt0 ex_D3). StandardFormat f = Inr (standard_line f)"
    by (simp add: StandardFormat_line)
  show ?thesis
    using a n Trace_lines [OF a n r, of "[0x402000, 0x403000]"]
    by (simp add: ex_frames3 ex_lines)
qed

text \<open>
  C5. Failure of \<open>Trace\<close> is all or nothing. When the template fails on a resolved frame
  \<open>f\<close> and renders the frames \<open>pre\<close> before it, \<open>Trace\<close> stops there and returns no line
  (the lines rendered for \<open>pre\<close> are dropped) and the error \<open>Wrap(err)\<close> of the rendering
  error, which is not \<open>nil\<close> and of which \<open>HasStack\<close> holds: it is a new decorator around the
  rendering error, with the stack captured in \<open>Trace\<close>, when the chain of the rendering
  error holds no decorator, and the rendering error itself when it holds one.
\<close>

theorem Trace_failure:
  assumes "errors_As e = Some se"
    and "errorStack_StackTrace rt se = pre @ f # post"
    and "\<forall>g \<in> set pre. t g = Inr (r g)"
    and "t f = Inl err"
  shows "Trace rt stk e t = ([], Wrap rt (pc_Trace rt # stk) (Some err)) \<and>
         Wrap rt (pc_Trace rt # stk) (Some err) \<noteq> None \<and>
         HasStack (Wrap rt (pc_Trace rt # stk) (Some err)) \<and>
         (decorators (Some err) = [] \<longrightarrow>
            Wrap rt (pc_Trace rt # stk) (Some err) =
              Some (Stack (ErrorStack (Some err) (take 20 (pc_Trace rt # stk)) None))) \<and>
         (decorators (Some err) \<noteq> [] \<longrightarrow> Wrap rt (pc_Trace rt # stk) (Some err) = Some err)"
proof -
  have "Trace_loop t (errorStack_StackTrace rt se) [] = Inl err"
    unfolding assms(2) using assms(3,4) by (rule Trace_loop_fails)
  then have "Trace rt stk e t = ([], Wrap rt (pc_Trace rt # stk) (Some err))"
    using assms(1) by (simp add: Trace_def)
  moreover have "Wrap rt (pc_Trace rt # stk) (Some err) \<noteq> None"
    by (cases "decorators (Some err) = []") (simp_all add: Wrap_plain Wrap_decorated)
  ultimately show ?thesis
    by (simp add: HasStack_Wrap Wrap_plain Wrap_decorated)
qed


theorem Trace_failure_witness:
  "errors_As (Some (Stack ex_D1)) = Some ex_D1 \<and>
   errorStack_StackTrace rt0 ex_D1 =
     [\<lparr>Function = ''main.main'', File = ''main.go'', Line = 30\<rparr>] @
     \<lparr>Function = ''runtime.goexit'', File = ''asm.s'', Line = 1357\<rparr> # [] \<and>
   ex_bad_field_template \<lparr>Function = ''runtime.goexit'', File = ''asm.s'', Line = 1357\<rparr> =
     Inl (ErrorString 9 ''cannot evaluate field Foobar'') \<and>
   Trace rt0 [0x402000, 0x403000] (Some (Stack ex_D1)) ex_bad_field_template =
     ([], Some (Stack (ErrorStack (Some (ErrorString 9 ''cannot evaluate field Foobar''))
                        [0x500500, 0x402000, 0x403000] None))) \<and>
   HasStack (snd (Trace rt0 [0x402000, 0x403000] (Some (Stack ex_D1)) ex_bad_field_template))"
proof -
  have a: "errors_As (Some (Stack ex_D1)) = Some ex_D1" by simp
  have f: "errorStack_StackTrace rt0 ex_D1 =
     [\<lparr>Function = ''main.main'', File = ''main.go'', Line = 30\<rparr>] @
     \<lparr>Function = ''runtime.goexit'', File = ''asm.s'', Line = 1357\<rparr> # []"
    by (simp add: ex_frames)
  have p: "\<forall>g \<in> set [\<lparr>Function = ''main.main'', File = ''main.go'', Line = 30\<rparr>].
      ex_bad_field_template g = Inr (Function g)"
    by (simp add: ex_bad_field_template_def)
  have b: "ex_bad_field_template \<lparr>Function = ''runtime.goexit'', File = ''asm.s'', Line = 1357\<rparr> =
     Inl (ErrorString 9 ''cannot evaluate field Foobar'')"
    by (simp add: ex_bad_field_template_def)
  have d: "decorators (Some (ErrorString 9 ''cannot evaluate field Foobar'')) = []"
    by (simp add: decorators_simps)
  have pc: "pc_Trace rt0 = 0x500500" by (simp add: rt0_def)
  show ?thesis
    using a f b d Trace_failure [OF a f p b, of "[0x402000, 0x403000]"]
    by (simp add: pc HasStack_def)
qed

text \<open>The rendering error of the first template holds a decorator: \<open>Trace\<close> returns it as
  it is, the error of the template engine and no decorator, and the only trace on its
  chain is the one captured earlier, not the stack at the failure.\<close>

theorem Trace_failure_counterexample:
  "Trace rt0 [0x402000, 0x403000] (Some (Stack ex_D1)) ex_failing_template =
     ([], Some ex_render_error) \<and>
   (\<forall>inner tr ea. ex_render_error \<noteq> Stack (ErrorStack inner tr ea)) \<and>
   map_option resolved_trace (errors_As (Some ex_render_error)) =
     Some [0x401000, 0x402000, 0x403000] \<and>
   buildStackTrace rt0 (pc_Wrap rt0 # pc_Trace rt0 # [0x402000, 0x403000]) =
     [0x500500, 0x402000, 0x403000]"
proof -
  have l: "Trace_loop ex_failing_template (errorStack_StackTrace rt0 ex_D1) [] = Inl ex_render_error"
    by (simp add: ex_frames Trace_loop_Cons ex_failing_template_def)
  have w: "Wrap rt0 (pc_Trace rt0 # [0x402000, 0x403000]) (Some ex_render_error) = Some ex_render_error"
    by (rule Wrap_decorated) (simp add: ex_render_error_def decorators_simps)
  have t: "Trace rt0 [0x402000, 0x403000] (Some (Stack ex_D1)) ex_failing_template =
     ([], Some ex_render_error)"
    by (simp add: Trace_def l w)
  show ?thesis
    by (simp add: t buildStackTrace_entry) (simp add: ex_render_error_def rt0_def)
qed

section \<open>Chain matching\<close>

lemma errorStack_Is_unfold:
  "errorStack_Is e other = (\<exists>t. other = Some (Stack t) \<and> errors_Is (Err e) (Err t))"
  by (auto split: option.splits errval.splits)

lemma errors_Is_not_decorator:
  assumes "\<not> isComparable t" and "\<forall>d. t \<noteq> Stack d"
  shows "\<not> errors_Is err (Some t)"
proof (induction err rule: chain.induct)
  case 1
  show ?case by simp
next
  case (2 e)
  have "\<not> (case e of Stack x \<Rightarrow> errorStack_Is x (Some t) | _ \<Rightarrow> False)"
    using assms(2) by (cases e; cases t) simp_all
  with 2 assms(1) show ?case by simp
qed

lemma errors_Is_never:
  "\<not> matches_itself t \<Longrightarrow> \<not> errors_Is err (Some t)"
  "\<not> errorStack_matches_itself d \<Longrightarrow> \<not> errors_Is err (Some (Stack d))"
proof (induction t and d arbitrary: err and err rule: matches_itself_errorStack_matches_itself.induct)
  case (1 a s)
  then show ?case by simp
next
  case (2 a s e)
  then show ?case by simp
next
  case (3 c i m n)
  then show ?case by (intro errors_Is_not_decorator) simp_all
next
  case (4 d)
  then show ?case by simp
next
  case (5 x tr ea)
  then obtain y where y: "x = Some y" "\<not> matches_itself y"
    by (auto split: option.splits)
  have inner: "\<And>e. \<not> errors_Is e (Some y)"
    using 5(1) y by blast
  show ?case
  proof (induction err rule: chain.induct)
    case 1
    show ?case by simp
  next
    case (2 e)
    have "\<not> (case e of Stack w \<Rightarrow> errorStack_Is w (Some (Stack (ErrorStack x tr ea))) | _ \<Rightarrow> False)"
      using inner y by (cases e) simp_all
    with 2 show ?case by simp
  qed
qed

lemma errors_Is_refl:
  "matches_itself t \<Longrightarrow> errors_Is (Some t) (Some t)"
  "errorStack_matches_itself d \<Longrightarrow> errors_Is (Err d) (Err d)"
proof (induction t and d rule: matches_itself_errorStack_matches_itself.induct)
  case (1 a s)
  show ?case by simp
next
  case (2 a s e)
  show ?case by simp
next
  case (3 c i m n)
  then show ?case by simp
next
  case (4 d)
  then show ?case by simp
next
  case (5 x tr ea)
  then show ?case by (cases x) simp_all
qed

lemma errorStack_Is_self: "errorStack_Is d (Some (Stack d)) = errorStack_matches_itself d"
proof (cases "errorStack_matches_itself d")
  case True
  then show ?thesis using errors_Is_refl(2) [of d] by simp
next
  case False
  then obtain y where y: "Err d = Some y" "\<not> matches_itself y"
    by (cases d) (auto split: option.splits)
  then show ?thesis using False errors_Is_never(1) [of y "Err d"] by simp
qed

lemma errors_Is_pointer:
  "errors_Is err (Some (ErrorString a m)) = (ErrorString a m \<in> set (chain err))"
proof (induction err rule: chain.induct)
  case 1
  show ?case by simp
next
  case (2 e)
  have "\<not> (case e of Stack x \<Rightarrow> errorStack_Is x (Some (ErrorString a m)) | _ \<Rightarrow> False)"
    by (cases e) simp_all
  with 2 show ?case by auto
qed

lemma New_matches_itself:
  "errors_As (New rt stk a m) = Some d \<Longrightarrow> errorStack_matches_itself d"
  by (auto simp: New_def errors_New_def)

lemma Errorf_matches_itself:
  "errors_As (Errorf rt stk a format vals) = Some d \<Longrightarrow> errorStack_matches_itself d"
  by (auto simp: Errorf_def Let_def fmt_Errorf_def errors_New_def
      split: option.splits prod.splits if_splits)

text \<open>
  C9. Chain matching. The method \<open>Is\<close> of a decorator returns true exactly when the other
  error is a decorator too and the two \<open>Err\<close> fields match under \<open>errors.Is\<close>; the fields
  \<open>trace\<close> and \<open>earlier\<close> of either side do not influence the result; a decorator does not
  match an error that is not a decorator, and under \<open>errors.Is\<close> it matches a pointer error
  of \<open>errors.New\<close> exactly when that pointer is on its chain. \<open>Is(d, d)\<close> holds exactly
  when the error \<open>d\<close> wraps matches itself: when it is \<open>nil\<close>, of a comparable type, or
  again such a decorator. That is so for every decorator \<open>New\<close> and \<open>Errorf\<close> build
  (\<open>New_matches_itself\<close>, \<open>Errorf_matches_itself\<close>), and not for a decorator around an error
  of a type that is not comparable and has no \<open>Is\<close> method.
\<close>

theorem Is_chain_matching:
  "errorStack_Is e other = (\<exists>t. other = Some (Stack t) \<and> errors_Is (Err e) (Err t)) \<and>
   errorStack_Is (ErrorStack err tr ea) other = errorStack_Is (ErrorStack err tr' ea') other \<and>
   errorStack_Is e (Some (Stack (ErrorStack err tr ea))) =
     errorStack_Is e (Some (Stack (ErrorStack err tr' ea'))) \<and>
   errorStack_Is d (Some (Stack d)) = errorStack_matches_itself d \<and>
   ((\<forall>t. other \<noteq> Some (Stack t)) \<longrightarrow> \<not> errorStack_Is e other) \<and>
   errors_Is (Some (Stack e)) (Some (ErrorString a m)) = (ErrorString a m \<in> set (chain (Err e)))"
proof (intro conjI)
  show "errorStack_Is e other = (\<exists>t. other = Some (Stack t) \<and> errors_Is (Err e) (Err t))"
    by (rule errorStack_Is_unfold)
  show "errorStack_Is (ErrorStack err tr ea) other = errorStack_Is (ErrorStack err tr' ea') other"
    unfolding errorStack_Is_unfold by simp
  show "errorStack_Is e (Some (Stack (ErrorStack err tr ea))) =
     errorStack_Is e (Some (Stack (ErrorStack err tr' ea')))"
    unfolding errorStack_Is_unfold by simp
  show "errorStack_Is d (Some (Stack d)) = errorStack_matches_itself d"
    by (rule errorStack_Is_self)
  show "(\<forall>t. other \<noteq> Some (Stack t)) \<longrightarrow> \<not> errorStack_Is e other"
    unfolding errorStack_Is_unfold by simp
  show "errors_Is (Some (Stack e)) (Some (ErrorString a m)) =
      (ErrorString a m \<in> set (chain (Err e)))"
    by (simp add: errors_Is_pointer errorStack_Unwrap_def)
qed


theorem Is_chain_matching_witness:
  "(\<forall>t. Some (ErrorString 7 ''bar'') \<noteq> Some (Stack t)) \<and>
   \<not> errorStack_Is ex_D1 (Some (ErrorString 7 ''bar'')) \<and>
   \<not> errors_Is (Some (Stack ex_D1)) (Some (ErrorString 7 ''bar'')) \<and>
   errorStack_Is ex_D3 (Some (Stack ex_D3)) \<and>
   errors_Is (Some (Stack ex_D3)) (Some (Stack ex_D3))"
proof -
  have m: "errorStack_matches_itself ex_D3"
    by (simp add: ex_D3_def)
  have c: "chain (Err ex_D1) = [ErrorString 1 ''inner'']"
    by (simp add: ex_D1_def)
  show ?thesis
    using m c Is_chain_matching [of ex_D1 "Some (ErrorString 7 ''bar'')" "Err ex_D1" "[]" None
        "[]" None ex_D3 7 "''bar''"]
    by simp
qed

text \<open>\<open>Is(d, d)\<close> is false for the decorator around an error of a slice type, and so is
  \<open>errors.Is(d, d)\<close>.\<close>

theorem Is_chain_matching_counterexample:
  "\<not> errorStack_Is ex_list_error (Some (Stack ex_list_error)) \<and>
   \<not> errors_Is (Some (Stack ex_list_error)) (Some (Stack ex_list_error))"
  by (simp add: ex_list_error_def errorStack_Unwrap_def)

section \<open>Display\<close>

lemma errorStack_Error_inner: "Err e = Some inner \<Longrightarrow> errorStack_Error e = error_Error inner"
  by (cases e) simp

lemma strings_Join_snoc:
  "strings_Join (ls @ [l]) sep = concat (map (\<lambda>x. x @ sep) ls) @ l"
proof (induction ls)
  case Nil
  show ?case by simp
next
  case (Cons x xs)
  then show ?case by (cases xs) simp_all
qed

lemma Trace_StandardFormat:
  assumes "errorStack_StackTrace rt e \<noteq> []"
  shows "Trace rt stk (Some (Stack e)) StandardFormat =
           (map standard_line (errorStack_StackTrace rt e), None)"
proof -
  have a: "errors_As (Some (Stack e)) = Some e" by simp
  have r: "\<forall>f \<in> set (errorStack_StackTrace rt e). StandardFormat f = Inr (standard_line f)"
    by (simp add: StandardFormat_line)
  from Trace_loop_renders [OF assms r, of "[]"] show ?thesis
    by (simp add: Trace_def)
qed

lemma ex_Trace_D1:
  "Trace rt0 (pc_Format rt0 # [0x404000]) (Some (Stack ex_D1)) StandardFormat =
     ([''main.main (main.go:30)'', ''runtime.goexit (asm.s:1357)''], None)"
proof -
  have "errorStack_StackTrace rt0 ex_D1 \<noteq> []" by (simp add: ex_frames)
  from Trace_StandardFormat [OF this] show ?thesis by (simp add: ex_lines)
qed

text \<open>
  C6. Display transparency. For a decorator around the error \<open>inner\<close>: \<open>Error()\<close> is
  \<open>inner.Error()\<close>; the verb \<open>%v\<close> without the flag \<open>+\<close> and the verb \<open>%s\<close> write that
  string and nothing else; the verb \<open>%q\<close> writes it quoted; any other verb writes nothing;
  the verb \<open>%v\<close> with the flag \<open>+\<close> writes the detailed rendering of \<open>inner\<close>, a newline, and
  the lines of the resolved trace joined by newlines: every line but the last is
  followed by a newline, the last one is not. (An \<open>Error\<close> method that panics is the
  result \<open>None\<close> on both sides.)
\<close>

theorem Format_display:
  assumes "Err e = Some inner"
  shows "errorStack_Error e = error_Error inner \<and>
    (\<not> flag CHR ''+'' \<longrightarrow> errorStack_Format rt stk e flag CHR ''v'' = error_Error inner) \<and>
    errorStack_Format rt stk e flag CHR ''s'' = error_Error inner \<and>
    errorStack_Format rt stk e flag CHR ''q'' = map_option (Quote rt) (error_Error inner) \<and>
    (verb \<notin> {CHR ''v'', CHR ''s'', CHR ''q''} \<longrightarrow> errorStack_Format rt stk e flag verb = Some []) \<and>
    (flag CHR ''+'' \<longrightarrow>
       errorStack_Format rt stk e flag CHR ''v'' =
         map_option
           (\<lambda>detailed. detailed @ newline @
              strings_Join (fst (Trace rt (pc_Format rt # stk) (Some (Stack e)) StandardFormat))
                newline)
           (fmt_plus_v rt stk (Some inner))) \<and>
    (errorStack_StackTrace rt e = frames @ [f] \<longrightarrow>
       strings_Join (fst (Trace rt (pc_Format rt # stk) (Some (Stack e)) StandardFormat)) newline =
         concat (map (\<lambda>g. standard_line g @ newline) frames) @ standard_line f)"
proof (intro conjI impI)
  show "errorStack_Error e = error_Error inner"
    using assms by (rule errorStack_Error_inner)
  then show "errorStack_Format rt stk e flag CHR ''s'' = error_Error inner"
    by (simp add: errorStack_Format.simps)
  show "errorStack_Format rt stk e flag CHR ''q'' = map_option (Quote rt) (error_Error inner)"
    using assms by (simp add: errorStack_Format.simps errorStack_Error_inner)
next
  assume "\<not> flag CHR ''+''"
  then show "errorStack_Format rt stk e flag CHR ''v'' = error_Error inner"
    using assms by (simp add: errorStack_Format.simps errorStack_Error_inner)
next
  assume "verb \<notin> {CHR ''v'', CHR ''s'', CHR ''q''}"
  then show "errorStack_Format rt stk e flag verb = Some []"
    by (simp add: errorStack_Format.simps)
next
  assume "flag CHR ''+''"
  then show "errorStack_Format rt stk e flag CHR ''v'' =
         map_option
           (\<lambda>detailed. detailed @ newline @
              strings_Join (fst (Trace rt (pc_Format rt # stk) (Some (Stack e)) StandardFormat))
                newline)
           (fmt_plus_v rt stk (Some inner))"
    using assms
    by (simp add: errorStack_Format.simps [of rt stk e] errorStack_Unwrap_def
        split: option.splits)
next
  assume fr: "errorStack_StackTrace rt e = frames @ [f]"
  then have "errorStack_StackTrace rt e \<noteq> []" by simp
  from Trace_StandardFormat [OF this]
  show "strings_Join (fst (Trace rt (pc_Format rt # stk) (Some (Stack e)) StandardFormat)) newline =
         concat (map (\<lambda>g. standard_line g @ newline) frames) @ standard_line f"
    by (simp add: fr strings_Join_snoc comp_def)
qed


theorem Format_display_witness:
  "Err ex_D1 = Some (ErrorString 1 ''inner'') \<and>
   errorStack_Error ex_D1 = Some ''inner'' \<and>
   errorStack_Format rt0 [0x404000] ex_D1 (\<lambda>c. False) CHR ''v'' = Some ''inner'' \<and>
   errorStack_Format rt0 [0x404000] ex_D1 (\<lambda>c. False) CHR ''s'' = Some ''inner'' \<and>
   errorStack_Format rt0 [0x404000] ex_D1 (\<lambda>c. False) CHR ''q'' = Some (quote_ascii ''inner'') \<and>
   errorStack_Format rt0 [0x404000] ex_D1 (\<lambda>c. False) CHR ''d'' = Some [] \<and>
   errorStack_Format rt0 [0x404000] ex_D1 (\<lambda>c. c = CHR ''+'') CHR ''v'' =
     Some (''inner'' @ newline @ ''main.main (main.go:30)'' @ newline @
           ''runtime.goexit (asm.s:1357)'')"
proof -
  have i: "Err ex_D1 = Some (ErrorString 1 ''inner'')"
    by (simp add: ex_D1_def)
  have q: "Quote rt0 = quote_ascii"
    by (simp add: rt0_def)
  have f: "errorStack_StackTrace rt0 ex_D1 =
     [\<lparr>Function = ''main.main'', File = ''main.go'', Line = 30\<rparr>] @
     [\<lparr>Function = ''runtime.goexit'', File = ''asm.s'', Line = 1357\<rparr>]"
    by (simp add: ex_frames)
  have v: "CHR ''d'' \<notin> {CHR ''v'', CHR ''s'', CHR ''q''}"
    by simp
  show ?thesis
    using i v
      Format_display [OF i, of "\<lambda>c. False" rt0 "[0x404000]" "CHR ''d''"
        "[\<lparr>Function = ''main.main'', File = ''main.go'', Line = 30\<rparr>]"
        "\<lparr>Function = ''runtime.goexit'', File = ''asm.s'', Line = 1357\<rparr>"]
      Format_display [OF i, of "\<lambda>c. c = CHR ''+''" rt0 "[0x404000]" "CHR ''d''"
        "[\<lparr>Function = ''main.main'', File = ''main.go'', Line = 30\<rparr>]"
        "\<lparr>Function = ''runtime.goexit'', File = ''asm.s'', Line = 1357\<rparr>"]
    by (simp add: q ex_Trace_D1)
qed

end
